theory Spec2Isabelle
  imports Main "HOL-Library.Sublist"
begin

section \<open>memDB: an array and object based in-memory store\<close>

text \<open>
  The development follows \<^verbatim>\<open>src/memDB.js\<close>. The closure returned by \<^verbatim>\<open>memDB\<close> owns one
  object \<^verbatim>\<open>db\<close> whose properties are arrays of record references. Arrays and records are
  heap objects with identity, so the model keeps an explicit heap: a table is an address
  into the array heap, a record is an address into the object heap, and every mutation of
  the source is a heap update.

  The source's private functions \<^verbatim>\<open>_set\<close>, \<^verbatim>\<open>_get\<close>, ... cannot keep a leading underscore
  as HOL names; they are called \<open>mem_set\<close>, \<open>mem_get\<close>, ... here.
\<close>

subsection \<open>The language and its host\<close>

text \<open>
  The source leans on primitives of its language that are no part of the repository: the
  operator \<^verbatim>\<open>==\<close> (with its conversions between strings, numbers and booleans, which rest
  on floating point), \<^verbatim>\<open>typeof\<close>, \<^verbatim>\<open>Object.entries\<close> on a string, the value \<^verbatim>\<open>undefined\<close>, the
  number of arguments one call may receive, and the property names of the built-in
  prototypes. They are parameters of the model. \<open>'v\<close> is the type of the values of the
  language: the primitive values, and the references to objects and to functions (what a
  record inherits from its prototype is such a reference); \<open>jstype\<close> is the type of a
  value, with \<^verbatim>\<open>null\<close> apart from the objects. \<open>entries_of\<close> is \<^verbatim>\<open>Object.entries\<close> on a value
  that has entries: the indexed characters of a string, the own enumerable properties of
  an object or a function.
\<close>

datatype jstype =
  TUndefined | TNull | TBoolean | TNumber | TString | TSymbol | TBigInt | TObject | TFunction

type_synonym 'v entries = "(string \<times> 'v) list"

record 'v host =
  loose_eq :: "'v \<Rightarrow> 'v \<Rightarrow> bool"
  type_of :: "'v \<Rightarrow> jstype"
  entries_of :: "'v \<Rightarrow> 'v entries"
  undefined_val :: 'v
  max_args :: nat
  object_proto :: "string \<Rightarrow> bool"
  array_proto :: "string \<Rightarrow> bool"

text \<open>\<^verbatim>\<open>typeof val == 'string' || typeof val == 'number'\<close>\<close>

definition is_scalar :: "'v host \<Rightarrow> 'v \<Rightarrow> bool" where
  "is_scalar h val = (type_of h val = TString \<or> type_of h val = TNumber)"

subsection \<open>Records, filters and the heap\<close>

text \<open>
  One element of a filter: a value, or an object written out by its own enumerable
  entries in property order. The argument \<^verbatim>\<open>key\<close> is one such element or an array of them.
\<close>

datatype 'v clause = Prim 'v | Obj "'v entries"

datatype 'v filter_expr = Single "'v clause" | Seq "'v clause list"

text \<open>The argument of \<^verbatim>\<open>set\<close>: one record reference or an array of them.\<close>

datatype records_arg = One nat | Many "nat list"

datatype error = TypeError | ReferenceError string | RangeError

text \<open>
  The closure's state. A record is an object the caller made; the program only reads it
  through \<^verbatim>\<open>item[index]\<close>, so \<open>objs\<close> gives, for every record address, the value of that
  read for every property name (own or inherited, \<^verbatim>\<open>undefined\<close> where there is none).
  \<open>arrays\<close> is the heap of arrays (the contents of every array address; an array has no
  holes) and \<open>fresh\<close> the next array address \<^verbatim>\<open>[]\<close> or \<^verbatim>\<open>filter\<close> allocates. \<open>primKey\<close> is the
  closure's parameter, as a property name.

  \<open>db\<close> holds the arrays that \<^verbatim>\<open>db\<close> gives under a name by itself: its own properties, which
  are all created by \<^verbatim>\<open>db[table] = []\<close>, and under the name \<^verbatim>\<open>__proto__\<close> the array that the
  same assignment has made the prototype of \<^verbatim>\<open>db\<close> (there the assignment runs the inherited
  setter and creates no own property).
\<close>

record 'v store =
  primKey :: string
  db :: "string \<rightharpoonup> nat"
  arrays :: "nat \<Rightarrow> nat list"
  objs :: "nat \<Rightarrow> string \<Rightarrow> 'v"
  fresh :: nat

function show_nat :: "nat \<Rightarrow> string" where
  "show_nat n =
     (if n < 10 then [''0123456789'' ! n]
      else show_nat (n div 10) @ [''0123456789'' ! (n mod 10)])"
  by pat_completeness auto
termination
  by (relation "measure id") auto

text \<open>The element an array holds under a property name, when the name is one of its indices.\<close>

fun element_named :: "string \<Rightarrow> nat list \<Rightarrow> nat \<Rightarrow> nat option" where
  "element_named name [] k = None"
| "element_named name (x # xs) k =
     (if show_nat k = name then Some x else element_named name xs (Suc k))"

text \<open>
  The value of \<^verbatim>\<open>db[name]\<close>. \<^verbatim>\<open>db\<close> is a plain object, so a name it does not hold is looked up
  in its prototype chain. While the prototype is \<^verbatim>\<open>Object.prototype\<close>, the name \<^verbatim>\<open>__proto__\<close>
  gives that object and the names of its properties give its methods. Once an array is
  the prototype, its indices give its elements, \<^verbatim>\<open>length\<close> its length, and the names of
  \<^verbatim>\<open>Array.prototype\<close> and \<^verbatim>\<open>Object.prototype\<close> their methods. The built-in prototypes are
  taken as the host provides them: their properties are functions, and \<^verbatim>\<open>__proto__\<close> is the
  accessor of \<^verbatim>\<open>Object.prototype\<close>.
\<close>

datatype builtin = ArrayPrototype | ObjectPrototype

datatype dbval =
    DArray nat
  | DRecord nat
  | DLength nat
  | DMethod builtin string
  | DPrototype
  | DUndefined

definition db_read :: "'v host \<Rightarrow> string \<Rightarrow> 'v store \<Rightarrow> dbval" where
  "db_read h name st =
     (case db st name of
        Some a \<Rightarrow> DArray a
      | None \<Rightarrow>
          (case db st ''__proto__'' of
             None \<Rightarrow>
               if name = ''__proto__'' then DPrototype
               else if object_proto h name then DMethod ObjectPrototype name
               else DUndefined
           | Some p \<Rightarrow>
               (case element_named name (arrays st p) 0 of
                  Some r \<Rightarrow> DRecord r
                | None \<Rightarrow>
                    if name = ''length'' then DLength (length (arrays st p))
                    else if array_proto h name then DMethod ArrayPrototype name
                    else if object_proto h name then DMethod ObjectPrototype name
                    else DUndefined)))"

text \<open>
  What a call evaluates to: \<^verbatim>\<open>undefined\<close>, a boolean, a plain array, a value \<^verbatim>\<open>db\<close> inherits,
  the array that \<^verbatim>\<open>_get\<close> returns (with the table name its \<^verbatim>\<open>delete\<close> property has
  captured), or a handle. A handle is the proxy of \<^verbatim>\<open>_use\<close>: its target (\<^verbatim>\<open>db\<close> itself, the
  array of a table, or an object \<^verbatim>\<open>db\<close> inherits) and the \<^verbatim>\<open>table\<close> argument its traps have
  captured.
\<close>

datatype target = Db | Table nat | Inherited dbval

datatype handle = Handle (target: target) (bound: "string option")

datatype retval =
    RUndefined
  | RBool bool
  | RArray nat
  | RInherited dbval
  | RResult nat string
  | RHandle handle

text \<open>
  A call returns a value or throws; either way it leaves a store behind (a throw keeps
  the writes made before it).
\<close>

type_synonym 'v outcome = "(error \<times> 'v store) + (retval \<times> 'v store)"

subsection \<open>Filter matching\<close>

text \<open>\<^verbatim>\<open>[].concat(key)\<close>: an array argument is copied, anything else becomes the one element.\<close>

fun concat_key :: "'v filter_expr \<Rightarrow> 'v clause list" where
  "concat_key (Single c) = [c]"
| "concat_key (Seq cs) = cs"

text \<open>
  \<^verbatim>\<open>key.forEach((val, index) => { if (typeof val == 'string' || typeof val == 'number')
  key[index] = { [primKey]: val } })\<close>
\<close>

fun wrap_scalar :: "'v host \<Rightarrow> string \<Rightarrow> 'v clause \<Rightarrow> 'v clause" where
  "wrap_scalar h pk (Prim val) = (if is_scalar h val then Obj [(pk, val)] else Prim val)"
| "wrap_scalar h pk (Obj es) = Obj es"

definition normalize_key :: "'v host \<Rightarrow> string \<Rightarrow> 'v filter_expr \<Rightarrow> 'v clause list" where
  "normalize_key h pk key = map (wrap_scalar h pk) (concat_key key)"

text \<open>
  \<^verbatim>\<open>Object.entries(keyObj)\<close>: the entries of an object; a \<^verbatim>\<open>TypeError\<close> on \<^verbatim>\<open>null\<close> and
  \<^verbatim>\<open>undefined\<close>; the host's answer for a string and for a reference to an object or a
  function; no entry for a boolean, a number, a symbol or a big integer.
\<close>

fun object_entries :: "'v host \<Rightarrow> 'v clause \<Rightarrow> error + 'v entries" where
  "object_entries h (Obj es) = Inr es"
| "object_entries h (Prim val) =
     (case type_of h val of
        TUndefined \<Rightarrow> Inl TypeError
      | TNull \<Rightarrow> Inl TypeError
      | TString \<Rightarrow> Inr (entries_of h val)
      | TObject \<Rightarrow> Inr (entries_of h val)
      | TFunction \<Rightarrow> Inr (entries_of h val)
      | _ \<Rightarrow> Inr [])"

text \<open>\<^verbatim>\<open>Object.entries(keyObj).every(([index, value]) => item[index] == value)\<close>\<close>

definition every_entry :: "'v host \<Rightarrow> (string \<Rightarrow> 'v) \<Rightarrow> 'v entries \<Rightarrow> bool" where
  "every_entry h item es = list_all (\<lambda>(index, val). loose_eq h (item index) val) es"

definition match_clause :: "'v host \<Rightarrow> (string \<Rightarrow> 'v) \<Rightarrow> 'v clause \<Rightarrow> error + bool" where
  "match_clause h item keyObj =
     (case object_entries h keyObj of
        Inl e \<Rightarrow> Inl e
      | Inr es \<Rightarrow> Inr (every_entry h item es))"

text \<open>\<^verbatim>\<open>key.some(keyObj => ...)\<close>: left to right, stopping at the first clause that matches.\<close>

fun some_clause :: "'v host \<Rightarrow> (string \<Rightarrow> 'v) \<Rightarrow> 'v clause list \<Rightarrow> error + bool" where
  "some_clause h item [] = Inr False"
| "some_clause h item (c # cs) =
     (case match_clause h item c of
        Inl e \<Rightarrow> Inl e
      | Inr b \<Rightarrow> if b then Inr True else some_clause h item cs)"

text \<open>\<^verbatim>\<open>db[table].filter(item => ...)\<close>: a new array of the items the callback accepts.\<close>

fun filter_items ::
  "'v host \<Rightarrow> (nat \<Rightarrow> string \<Rightarrow> 'v) \<Rightarrow> 'v clause list \<Rightarrow> nat list \<Rightarrow> error + nat list" where
  "filter_items h heap key [] = Inr []"
| "filter_items h heap key (item # items) =
     (case some_clause h (heap item) key of
        Inl e \<Rightarrow> Inl e
      | Inr b \<Rightarrow>
          (case filter_items h heap key items of
             Inl e \<Rightarrow> Inl e
           | Inr rest \<Rightarrow> Inr (if b then item # rest else rest)))"

subsection \<open>The operations\<close>

text \<open>\<^verbatim>\<open>[].concat(obj)\<close> for the argument of \<^verbatim>\<open>_set\<close>.\<close>

fun concat_arg :: "records_arg \<Rightarrow> nat list" where
  "concat_arg (One r) = [r]"
| "concat_arg (Many rs) = rs"

definition array_push :: "nat \<Rightarrow> nat list \<Rightarrow> 'v store \<Rightarrow> 'v store" where
  "array_push a xs st = st\<lparr>arrays := (arrays st)(a := arrays st a @ xs)\<rparr>"

text \<open>
  \<^verbatim>\<open>db[table] = []\<close>, reached when \<^verbatim>\<open>db[table]\<close> is no array: a new array becomes the own
  property (for \<^verbatim>\<open>__proto__\<close>: the prototype) of \<^verbatim>\<open>db\<close>.
\<close>

definition new_table :: "string \<Rightarrow> 'v store \<Rightarrow> 'v store" where
  "new_table table st =
     st\<lparr>db := (db st)(table \<mapsto> fresh st),
        arrays := (arrays st)(fresh st := []),
        fresh := Suc (fresh st)\<rparr>"

text \<open>
  \<^verbatim>\<open>_set = (table, obj) => { if (!Array.isArray(db[table])) db[table] = [];
  obj = [].concat(obj); db[table].push(...obj) }\<close>

  The spread passes every record as one argument of \<^verbatim>\<open>push\<close>; beyond the number of
  arguments the host accepts the call throws a \<^verbatim>\<open>RangeError\<close>, after the table has been
  created.
\<close>

definition mem_set :: "'v host \<Rightarrow> string \<Rightarrow> records_arg \<Rightarrow> 'v store \<Rightarrow> 'v outcome" where
  "mem_set h table obj st =
     (let st1 = (case db_read h table st of DArray a \<Rightarrow> st | _ \<Rightarrow> new_table table st);
          obj' = concat_arg obj
      in case db_read h table st1 of
           DArray a \<Rightarrow>
             if max_args h < length obj' then Inl (RangeError, st1)
             else Inr (RUndefined, array_push a obj' st1)
         | _ \<Rightarrow> Inl (TypeError, st1))"

text \<open>
  \<^verbatim>\<open>_get\<close>: the key is normalized first; \<^verbatim>\<open>db[table].filter\<close> is a \<^verbatim>\<open>TypeError\<close> when
  \<^verbatim>\<open>db[table]\<close> is no array (a value \<^verbatim>\<open>db\<close> inherits has no \<^verbatim>\<open>filter\<close> to call; records are
  taken to be data, with no method of that name); the result is a newly allocated array
  carrying the \<^verbatim>\<open>delete\<close> closure.
\<close>

definition mem_get :: "'v host \<Rightarrow> string \<Rightarrow> 'v filter_expr \<Rightarrow> 'v store \<Rightarrow> 'v outcome" where
  "mem_get h table key st =
     (let key' = normalize_key h (primKey st) key in
      case db_read h table st of
        DArray a \<Rightarrow>
          (case filter_items h (objs st) key' (arrays st a) of
             Inl e \<Rightarrow> Inl (e, st)
           | Inr result \<Rightarrow>
               Inr (RResult (fresh st) table,
                    st\<lparr>arrays := (arrays st)(fresh st := result), fresh := Suc (fresh st)\<rparr>))
      | _ \<Rightarrow> Inl (TypeError, st))"

text \<open>\<^verbatim>\<open>_getAll = (table) => db[table]\<close>\<close>

fun value_of :: "dbval \<Rightarrow> retval" where
  "value_of (DArray a) = RArray a"
| "value_of DUndefined = RUndefined"
| "value_of v = RInherited v"

definition mem_getAll :: "'v host \<Rightarrow> string \<Rightarrow> 'v store \<Rightarrow> 'v outcome" where
  "mem_getAll h table st = Inr (value_of (db_read h table st), st)"

text \<open>
  \<^verbatim>\<open>_deleteAll = (table) => delete db[table]\<close>: an own property is removed; \<^verbatim>\<open>__proto__\<close>
  is never an own property, so there nothing is removed. The result is \<^verbatim>\<open>true\<close> either way.
\<close>

definition mem_deleteAll :: "string \<Rightarrow> 'v store \<Rightarrow> 'v outcome" where
  "mem_deleteAll table st =
     Inr (RBool True,
          if table = ''__proto__'' then st else st\<lparr>db := (db st)(table := None)\<rparr>)"

subsection \<open>Deleting items\<close>

text \<open>\<^verbatim>\<open>dbTable.indexOf(item)\<close>: the first index holding the same reference, or \<open>-1\<close>.\<close>

fun indexOf_from :: "nat list \<Rightarrow> nat \<Rightarrow> nat \<Rightarrow> int" where
  "indexOf_from [] item k = - 1"
| "indexOf_from (x # xs) item k = (if x = item then int k else indexOf_from xs item (Suc k))"

definition indexOf :: "nat list \<Rightarrow> nat \<Rightarrow> int" where
  "indexOf xs item = indexOf_from xs item 0"

text \<open>
  \<^verbatim>\<open>dbTable.splice(start, 1)\<close>, as the array it leaves: a negative \<open>start\<close> counts from the
  end (clamped at \<open>0\<close>), a \<open>start\<close> beyond the end is the end, and one element is removed
  from there when there is one.
\<close>

definition splice1 :: "nat list \<Rightarrow> int \<Rightarrow> nat list" where
  "splice1 xs start =
     (let len = int (length xs);
          s = (if start < 0 then max (len + start) 0 else min start len)
      in take (nat s) xs @ drop (Suc (nat s)) xs)"

text \<open>
  \<^verbatim>\<open>deleteItem = (dbTable, item) => dbTable.splice(dbTable.indexOf(item), 1)\<close>. The first
  argument is the value of \<^verbatim>\<open>db[table]\<close> at the call; when it is no array the call is a
  \<^verbatim>\<open>TypeError\<close> (a value \<^verbatim>\<open>db\<close> inherits has no \<^verbatim>\<open>indexOf\<close> to call; records are taken to
  be data, with no method of that name).
\<close>

definition deleteItem :: "dbval \<Rightarrow> nat \<Rightarrow> 'v store \<Rightarrow> (error \<times> 'v store) + 'v store" where
  "deleteItem dbTable item st =
     (case dbTable of
        DArray a \<Rightarrow>
          Inr (st\<lparr>arrays := (arrays st)(a := splice1 (arrays st a) (indexOf (arrays st a) item))\<rparr>)
      | _ \<Rightarrow> Inl (TypeError, st))"

text \<open>
  \<^verbatim>\<open>array.forEach(callback)\<close>: the length is read once; the index runs up to it and the
  callback is called on the element the array holds at that index at that moment, when
  the array still has one there.
\<close>

type_synonym 'v callback = "nat \<Rightarrow> 'v store \<Rightarrow> (error \<times> 'v store) + 'v store"

fun forEach_from ::
  "nat \<Rightarrow> nat \<Rightarrow> nat \<Rightarrow> 'v callback \<Rightarrow> 'v store \<Rightarrow> (error \<times> 'v store) + 'v store" where
  "forEach_from arr k 0 cb st = Inr st"
| "forEach_from arr k (Suc n) cb st =
     (if k < length (arrays st arr)
      then (case cb (arrays st arr ! k) st of
              Inl e \<Rightarrow> Inl e
            | Inr st' \<Rightarrow> forEach_from arr (Suc k) n cb st')
      else forEach_from arr (Suc k) n cb st)"

definition forEach :: "nat \<Rightarrow> 'v callback \<Rightarrow> 'v store \<Rightarrow> (error \<times> 'v store) + 'v store" where
  "forEach arr cb st = forEach_from arr 0 (length (arrays st arr)) cb st"

text \<open>
  The \<^verbatim>\<open>delete\<close> property of the array \<^verbatim>\<open>_get\<close> returns:
  \<^verbatim>\<open>() => { result.forEach(item => deleteItem(db[table], item)) }\<close>.
  Any other value has no such closure to call.
\<close>

definition result_delete :: "'v host \<Rightarrow> retval \<Rightarrow> 'v store \<Rightarrow> 'v outcome" where
  "result_delete h r st =
     (case r of
        RResult result table \<Rightarrow>
          (case forEach result (\<lambda>item s. deleteItem (db_read h table s) item s) st of
             Inl e \<Rightarrow> Inl e
           | Inr st' \<Rightarrow> Inr (RUndefined, st'))
      | _ \<Rightarrow> Inl (TypeError, st))"

subsection \<open>Update and delete\<close>

text \<open>
  The identifiers the closure of \<^verbatim>\<open>memDB\<close> declares (its parameter and its constants), and
  the one global the script assigns. A reference to any other identifier throws a
  \<^verbatim>\<open>ReferenceError\<close> when it is evaluated (the host environment is taken to define no
  global of that name).
\<close>

definition declared :: "string list" where
  "declared = [''primKey'', ''db'', ''deleteItem'', ''_set'', ''_get'', ''_getAll'', ''_update'',
     ''_delete'', ''_deleteAll'', ''_use'', ''features'', ''memDB'']"

text \<open>
  \<^verbatim>\<open>_update = (table, key, callback) => { get(table, key).forEach(item => callback(item)) }\<close>

  The callee is the identifier \<^verbatim>\<open>get\<close>. Were it declared as the retrieval, the body would
  retrieve and run the callback over the result; the model keeps that path for the
  comparison with the specification.
\<close>

definition mem_update ::
  "'v host \<Rightarrow> string \<Rightarrow> 'v filter_expr \<Rightarrow> 'v callback \<Rightarrow> 'v store \<Rightarrow> 'v outcome" where
  "mem_update h table key cb st =
     (if ''get'' \<in> set declared
      then (case mem_get h table key st of
              Inl e \<Rightarrow> Inl e
            | Inr (r, st1) \<Rightarrow>
                (case r of
                   RResult result t \<Rightarrow>
                     (case forEach result cb st1 of
                        Inl e \<Rightarrow> Inl e
                      | Inr st2 \<Rightarrow> Inr (RUndefined, st2))
                 | _ \<Rightarrow> Inl (TypeError, st1)))
      else Inl (ReferenceError ''get'', st))"

text \<open>
  \<^verbatim>\<open>_delete = (table, key) => { get(table, key).forEach(item => deleteItem(db[table], item)) }\<close>
\<close>

definition mem_delete :: "'v host \<Rightarrow> string \<Rightarrow> 'v filter_expr \<Rightarrow> 'v store \<Rightarrow> 'v outcome" where
  "mem_delete h table key st =
     (if ''get'' \<in> set declared
      then (case mem_get h table key st of
              Inl e \<Rightarrow> Inl e
            | Inr (r, st1) \<Rightarrow>
                (case r of
                   RResult result t \<Rightarrow>
                     (case forEach result (\<lambda>item s. deleteItem (db_read h table s) item s) st1 of
                        Inl e \<Rightarrow> Inl e
                      | Inr st2 \<Rightarrow> Inr (RUndefined, st2))
                 | _ \<Rightarrow> Inl (TypeError, st1)))
      else Inl (ReferenceError ''get'', st))"

subsection \<open>Handles\<close>

text \<open>
  \<^verbatim>\<open>_use = (table) => new Proxy(table ? db[table] : db, { get: ... })\<close>. The argument is
  \<open>None\<close> when it is left out. A string is truthy unless it is empty. A proxy can be
  constructed over any object (an array, a record, a function, a prototype); over
  \<^verbatim>\<open>undefined\<close> or a number the constructor throws a \<^verbatim>\<open>TypeError\<close>.
\<close>

definition truthy :: "string option \<Rightarrow> bool" where
  "truthy table = (case table of None \<Rightarrow> False | Some t \<Rightarrow> t \<noteq> [])"

definition mem_use :: "'v host \<Rightarrow> string option \<Rightarrow> 'v store \<Rightarrow> 'v outcome" where
  "mem_use h table st =
     (case table of
        None \<Rightarrow> Inr (RHandle (Handle Db table), st)
      | Some t \<Rightarrow>
          if truthy table
          then (case db_read h t st of
                  DArray a \<Rightarrow> Inr (RHandle (Handle (Table a) table), st)
                | DUndefined \<Rightarrow> Inl (TypeError, st)
                | DLength n \<Rightarrow> Inl (TypeError, st)
                | v \<Rightarrow> Inr (RHandle (Handle (Inherited v) table), st))
          else Inr (RHandle (Handle Db table), st))"

text \<open>
  \<^verbatim>\<open>features = { set: _set, get: _get, getAll: _getAll, update: _update, delete: _delete,
  deleteAll: _deleteAll, use: _use }\<close>
\<close>

datatype feature = FSet | FGet | FGetAll | FUpdate | FDelete | FDeleteAll | FUse

definition features :: "string \<rightharpoonup> feature" where
  "features = map_of
     [(''set'', FSet), (''get'', FGet), (''getAll'', FGetAll), (''update'', FUpdate),
      (''delete'', FDelete), (''deleteAll'', FDeleteAll), (''use'', FUse)]"

text \<open>
  The arguments of a call, by position: a table name, a filter, records, a callback. A
  parameter that receives no argument is \<^verbatim>\<open>undefined\<close>: as a table name it is the property
  name \<^verbatim>\<open>"undefined"\<close>, as a filter it is the value \<^verbatim>\<open>undefined\<close>. Arguments beyond the
  parameters are ignored. Other shapes (a record where a name is expected, and so on) are
  not modelled: \<open>None\<close>.
\<close>

datatype 'v arg =
    AString string
  | AFilter "'v filter_expr"
  | ARecords records_arg
  | ACallback "'v callback"

fun table_param :: "'v arg list \<Rightarrow> string option" where
  "table_param [] = Some ''undefined''"
| "table_param (AString t # args) = Some t"
| "table_param (a # args) = None"

fun key_param :: "'v host \<Rightarrow> 'v arg list \<Rightarrow> 'v filter_expr option" where
  "key_param h [] = Some (Single (Prim (undefined_val h)))"
| "key_param h (AFilter k # args) = Some k"
| "key_param h (a # args) = None"

fun use_param :: "'v arg list \<Rightarrow> string option option" where
  "use_param [] = Some None"
| "use_param (AString t # args) = Some (Some t)"
| "use_param (a # args) = None"

fun call_feature :: "'v host \<Rightarrow> feature \<Rightarrow> 'v arg list \<Rightarrow> 'v store \<Rightarrow> 'v outcome option" where
  "call_feature h FSet args st =
     (case (table_param args, tl args) of
        (Some t, ARecords obj # rest) \<Rightarrow> Some (mem_set h t obj st)
      | _ \<Rightarrow> None)"
| "call_feature h FGet args st =
     (case (table_param args, key_param h (tl args)) of
        (Some t, Some k) \<Rightarrow> Some (mem_get h t k st)
      | _ \<Rightarrow> None)"
| "call_feature h FGetAll args st =
     (case table_param args of Some t \<Rightarrow> Some (mem_getAll h t st) | None \<Rightarrow> None)"
| "call_feature h FUpdate args st =
     (case (table_param args, key_param h (tl args), tl (tl args)) of
        (Some t, Some k, ACallback cb # rest) \<Rightarrow> Some (mem_update h t k cb st)
      | _ \<Rightarrow> None)"
| "call_feature h FDelete args st =
     (case (table_param args, key_param h (tl args)) of
        (Some t, Some k) \<Rightarrow> Some (mem_delete h t k st)
      | _ \<Rightarrow> None)"
| "call_feature h FDeleteAll args st =
     (case table_param args of Some t \<Rightarrow> Some (mem_deleteAll t st) | None \<Rightarrow> None)"
| "call_feature h FUse args st =
     (case use_param args of Some table \<Rightarrow> Some (mem_use h table st) | None \<Rightarrow> None)"

text \<open>
  The proxy's \<^verbatim>\<open>get\<close> trap, for a property that names one of the seven features:
  \<^verbatim>\<open>(...args) => table ? features[prop].call(null, table, ...args) : features[prop](...args)\<close>.
  What the proxy answers for any other property is no operation of this program and is
  not modelled: \<open>None\<close>.
\<close>

definition forwarded :: "handle \<Rightarrow> 'v arg list \<Rightarrow> 'v arg list" where
  "forwarded hdl args =
     (case bound hdl of
        None \<Rightarrow> args
      | Some t \<Rightarrow> if truthy (bound hdl) then AString t # args else args)"

definition handle_call ::
  "'v host \<Rightarrow> handle \<Rightarrow> string \<Rightarrow> 'v arg list \<Rightarrow> 'v store \<Rightarrow> 'v outcome option" where
  "handle_call h hdl prop args st =
     (case features prop of
        None \<Rightarrow> None
      | Some f \<Rightarrow> call_feature h f (forwarded hdl args) st)"

text \<open>
  \<^verbatim>\<open>memDB = (primKey = 'id') => { const db = {}, ...; return _use() }\<close>, started on a heap of
  records: the closure's initial state, and the handle it returns.
\<close>

definition init_store :: "string option \<Rightarrow> (nat \<Rightarrow> string \<Rightarrow> 'v) \<Rightarrow> 'v store" where
  "init_store pk heap =
     \<lparr>primKey = (case pk of None \<Rightarrow> ''id'' | Some k \<Rightarrow> k),
      db = Map.empty, arrays = (\<lambda>a. []), objs = heap, fresh = 0\<rparr>"

definition memDB :: "'v host \<Rightarrow> string option \<Rightarrow> (nat \<Rightarrow> string \<Rightarrow> 'v) \<Rightarrow> 'v outcome" where
  "memDB h pk heap = mem_use h None (init_store pk heap)"

subsection \<open>The specification's reading of a filter\<close>

text \<open>
  The filter expressions of the specification: every element is a scalar (a string or a
  number) or an equality object.
\<close>

fun valid_clause :: "'v host \<Rightarrow> 'v clause \<Rightarrow> bool" where
  "valid_clause h (Obj es) = True"
| "valid_clause h (Prim val) = is_scalar h val"

definition valid_filter :: "'v host \<Rightarrow> 'v filter_expr \<Rightarrow> bool" where
  "valid_filter h key = list_all (valid_clause h) (concat_key key)"

text \<open>
  The matching relation as the specification words it. A scalar stands for the equality
  object on the primary key; an expression that is not a sequence is a sequence of one; a
  record matches a clause when every pair of the clause equals, by the language's \<^verbatim>\<open>==\<close>,
  the record's value at that attribute; it matches the expression when it matches at
  least one clause.
\<close>

fun spec_clause :: "string \<Rightarrow> 'v clause \<Rightarrow> 'v entries" where
  "spec_clause pk (Obj es) = es"
| "spec_clause pk (Prim val) = [(pk, val)]"

fun spec_sequence :: "string \<Rightarrow> 'v filter_expr \<Rightarrow> 'v entries list" where
  "spec_sequence pk (Single c) = [spec_clause pk c]"
| "spec_sequence pk (Seq cs) = map (spec_clause pk) cs"

definition spec_matches_clause :: "'v host \<Rightarrow> (string \<Rightarrow> 'v) \<Rightarrow> 'v entries \<Rightarrow> bool" where
  "spec_matches_clause h item es = list_all (\<lambda>(attr, val). loose_eq h (item attr) val) es"

definition spec_matches :: "'v host \<Rightarrow> string \<Rightarrow> (string \<Rightarrow> 'v) \<Rightarrow> 'v filter_expr \<Rightarrow> bool" where
  "spec_matches h pk item key = list_ex (spec_matches_clause h item) (spec_sequence pk key)"

subsection \<open>Reachable stores and sample data\<close>

text \<open>
  Every array a table name points to was allocated earlier, and no two names share an
  array. The initial store has both properties and every operation keeps them.
\<close>

definition store_ok :: "'v store \<Rightarrow> bool" where
  "store_ok st = (\<forall>t a. db st t = Some a \<longrightarrow> a < fresh st)"

definition tables_distinct :: "'v store \<Rightarrow> bool" where
  "tables_distinct st = inj_on (db st) (dom (db st))"

text \<open>The records of a table, when it exists, and sequencing of calls.\<close>

definition rows :: "string \<Rightarrow> 'v store \<Rightarrow> nat list option" where
  "rows table st = map_option (arrays st) (db st table)"

definition and_then :: "'v outcome \<Rightarrow> (retval \<Rightarrow> 'v store \<Rightarrow> 'v outcome) \<Rightarrow> 'v outcome" where
  "and_then m f = (case m of Inl e \<Rightarrow> Inl e | Inr (r, st) \<Rightarrow> f r st)"

definition rows_after :: "string \<Rightarrow> 'v outcome \<Rightarrow> error + nat list option" where
  "rows_after table m =
     (case m of Inl (e, st) \<Rightarrow> Inl e | Inr (r, st) \<Rightarrow> Inr (rows table st))"

text \<open>
  A sample host over ten values of the language: \<^verbatim>\<open>undefined\<close>, \<^verbatim>\<open>null\<close>, \<^verbatim>\<open>true\<close>, the numbers
  \<open>1\<close> and \<open>2\<close>, and the strings \<^verbatim>\<open>"1"\<close>, \<^verbatim>\<open>"2"\<close>, \<^verbatim>\<open>"a"\<close>, \<^verbatim>\<open>"b"\<close>, \<^verbatim>\<open>"c"\<close>. Among them \<^verbatim>\<open>==\<close> holds
  between a value and itself, between \<^verbatim>\<open>undefined\<close> and \<^verbatim>\<open>null\<close>, and between the values
  that convert to the same number: \<^verbatim>\<open>true\<close>, \<open>1\<close> and \<^verbatim>\<open>"1"\<close>; \<open>2\<close> and \<^verbatim>\<open>"2"\<close>. Each of the
  strings has one character, itself. The host accepts \<open>500000\<close> arguments in a call, and
  its prototypes have the properties of the 2023 edition of the language.
\<close>

datatype sample_val =
  SUndefined | SNull | STrue | SNum1 | SNum2 | SStr1 | SStr2 | SStr_a | SStr_b | SStr_c

fun sample_type :: "sample_val \<Rightarrow> jstype" where
  "sample_type SUndefined = TUndefined"
| "sample_type SNull = TNull"
| "sample_type STrue = TBoolean"
| "sample_type SNum1 = TNumber"
| "sample_type SNum2 = TNumber"
| "sample_type v = TString"

definition sample_eq :: "sample_val \<Rightarrow> sample_val \<Rightarrow> bool" where
  "sample_eq x y =
     (x = y \<or>
      (x, y) \<in> set [(SUndefined, SNull), (STrue, SNum1), (STrue, SStr1), (SNum1, SStr1),
                     (SNum2, SStr2)] \<or>
      (y, x) \<in> set [(SUndefined, SNull), (STrue, SNum1), (STrue, SStr1), (SNum1, SStr1),
                     (SNum2, SStr2)])"

definition sample_entries :: "sample_val \<Rightarrow> sample_val entries" where
  "sample_entries v = (if sample_type v = TString then [(''0'', v)] else [])"

definition sample_host :: "sample_val host" where
  "sample_host =
     \<lparr>loose_eq = sample_eq, type_of = sample_type, entries_of = sample_entries,
      undefined_val = SUndefined, max_args = 500000,
      object_proto = (\<lambda>name. name \<in> set
        [''constructor'', ''__defineGetter__'', ''__defineSetter__'', ''hasOwnProperty'',
         ''__lookupGetter__'', ''__lookupSetter__'', ''isPrototypeOf'',
         ''propertyIsEnumerable'', ''toString'', ''valueOf'', ''__proto__'',
         ''toLocaleString'']),
      array_proto = (\<lambda>name. name \<in> set
        [''constructor'', ''at'', ''concat'', ''copyWithin'', ''fill'', ''find'',
         ''findIndex'', ''findLast'', ''findLastIndex'', ''lastIndexOf'', ''pop'', ''push'',
         ''reverse'', ''shift'', ''unshift'', ''slice'', ''sort'', ''splice'', ''includes'',
         ''indexOf'', ''join'', ''keys'', ''entries'', ''values'', ''forEach'', ''filter'',
         ''flat'', ''flatMap'', ''map'', ''every'', ''some'', ''reduce'', ''reduceRight'',
         ''toLocaleString'', ''toString'', ''toReversed'', ''toSorted'', ''toSpliced'',
         ''with''])\<rparr>"

text \<open>
  Three records made without a prototype, holding \<^verbatim>\<open>{id: 1, name: "a"}\<close>,
  \<^verbatim>\<open>{id: 2, name: "b"}\<close> and \<^verbatim>\<open>{id: "1", name: "c"}\<close>, and the store after
  \<^verbatim>\<open>db = memDB(); db.set("users", [r0, r1, r2])\<close>.
\<close>

definition sample_heap :: "nat \<Rightarrow> string \<Rightarrow> sample_val" where
  "sample_heap =
     (\<lambda>r index. SUndefined)
       (0 := (\<lambda>index. SUndefined)(''id'' := SNum1, ''name'' := SStr_a),
        1 := (\<lambda>index. SUndefined)(''id'' := SNum2, ''name'' := SStr_b),
        2 := (\<lambda>index. SUndefined)(''id'' := SStr1, ''name'' := SStr_c))"

definition sample_store :: "sample_val store" where
  "sample_store =
     \<lparr>primKey = ''id'', db = [''users'' \<mapsto> 0], arrays = (\<lambda>a. [])(0 := [0, 1, 2]),
      objs = sample_heap, fresh = 1\<rparr>"

text \<open>The store after \<^verbatim>\<open>db = memDB(); db.set("__proto__", r0)\<close>.\<close>

definition proto_store :: "sample_val store" where
  "proto_store =
     \<lparr>primKey = ''id'', db = [''__proto__'' \<mapsto> 0], arrays = (\<lambda>a. [])(0 := [0]),
      objs = sample_heap, fresh = 1\<rparr>"

section \<open>Properties\<close>

subsection \<open>Evaluation on the sample data\<close>

lemmas eval_host = sample_host_def sample_eq_def sample_entries_def is_scalar_def

lemmas eval_match =
  spec_matches_def spec_matches_clause_def valid_filter_def

lemmas eval_sample = sample_store_def sample_heap_def

lemmas eval_get =
  mem_get_def db_read_def normalize_key_def match_clause_def every_entry_def

lemma sample_store_reached:
  "mem_set sample_host ''users'' (Many [0, 1, 2]) (init_store None sample_heap) =
     Inr (RUndefined, sample_store)"
  by (simp add: mem_set_def db_read_def init_store_def new_table_def array_push_def
        sample_store_def sample_host_def)

subsection \<open>Reading \<^verbatim>\<open>db\<close>\<close>

lemma db_read_table: "db st table = Some a \<Longrightarrow> db_read h table st = DArray a"
  by (simp add: db_read_def)

lemma db_read_DArray: "db_read h table st = DArray a \<longleftrightarrow> db st table = Some a"
  by (auto simp: db_read_def split: option.splits if_splits)

lemma db_read_no_table:
  "db st table = None \<Longrightarrow> db_read h table st \<noteq> DArray a"
  by (simp add: db_read_DArray)

subsection \<open>Retrieval against the specification's matching relation\<close>

lemma spec_sequence_concat: "spec_sequence pk key = map (spec_clause pk) (concat_key key)"
  by (cases key) simp_all

lemma match_clause_valid:
  "valid_clause h c \<Longrightarrow>
   match_clause h item (wrap_scalar h pk c) =
     Inr (spec_matches_clause h item (spec_clause pk c))"
  by (cases c) (simp_all add: match_clause_def every_entry_def spec_matches_clause_def)

lemma some_clause_valid:
  "list_all (valid_clause h) cs \<Longrightarrow>
   some_clause h item (map (wrap_scalar h pk) cs) =
     Inr (list_ex (spec_matches_clause h item) (map (spec_clause pk) cs))"
  by (induction cs) (simp_all add: match_clause_valid)

lemma filter_items_total:
  "(\<And>item. item \<in> set items \<Longrightarrow> some_clause h (heap item) key = Inr (P item)) \<Longrightarrow>
   filter_items h heap key items = Inr (filter P items)"
  by (induction items) simp_all

lemma mem_get_valid:
  assumes "db st table = Some a" and "valid_filter h key"
  shows "mem_get h table key st =
    Inr (RResult (fresh st) table,
         st\<lparr>arrays := (arrays st)(fresh st :=
                 filter (\<lambda>item. spec_matches h (primKey st) (objs st item) key) (arrays st a)),
            fresh := Suc (fresh st)\<rparr>)"
proof -
  have "filter_items h (objs st) (normalize_key h (primKey st) key) (arrays st a) =
        Inr (filter (\<lambda>item. spec_matches h (primKey st) (objs st item) key) (arrays st a))"
    using assms(2)
    by (intro filter_items_total)
       (simp add: normalize_key_def valid_filter_def some_clause_valid spec_matches_def
          spec_sequence_concat)
  then show ?thesis
    using assms(1) by (simp add: mem_get_def db_read_table)
qed

text \<open>
  C1. On an existing table and a filter expression of the specification (scalars and
  equality objects, alone or in a sequence), \<^verbatim>\<open>get\<close> returns a new array holding exactly
  the records of the table that match under the OR-of-ANDs reading, in table order:
  scalars stand for the equality object on the primary key, and values are compared with
  the loose equality of the language.
\<close>

theorem get_or_of_ands:
  assumes "db st table = Some a" and "valid_filter h key"
  shows "\<exists>st'. mem_get h table key st = Inr (RResult (fresh st) table, st') \<and>
     arrays st' (fresh st) =
       filter (\<lambda>item. spec_matches h (primKey st) (objs st item) key) (arrays st a)"
  using mem_get_valid [OF assms] by simp

text \<open>
  On the sample table: the filter \<^verbatim>\<open>[1, {name: "b", id: "2"}]\<close> selects all three records
  (the number \<open>1\<close> matches the string \<^verbatim>\<open>"1"\<close>, the string \<^verbatim>\<open>"2"\<close> matches the number \<open>2\<close>), and
  the filter \<^verbatim>\<open>1\<close> selects the first and the third.
\<close>

theorem get_or_of_ands_witness:
  "db sample_store ''users'' = Some 0 \<and>
   valid_filter sample_host (Seq [Prim SNum1, Obj [(''name'', SStr_b), (''id'', SStr2)]]) \<and>
   (\<exists>st'. mem_get sample_host ''users''
             (Seq [Prim SNum1, Obj [(''name'', SStr_b), (''id'', SStr2)]]) sample_store
             = Inr (RResult 1 ''users'', st') \<and> arrays st' 1 = [0, 1, 2]) \<and>
   (\<exists>st'. mem_get sample_host ''users'' (Single (Prim SNum1)) sample_store
            = Inr (RResult 1 ''users'', st') \<and> arrays st' 1 = [0, 2])"
  using
    get_or_of_ands [of sample_store "''users''" 0 sample_host
      "Seq [Prim SNum1, Obj [(''name'', SStr_b), (''id'', SStr2)]]"]
    get_or_of_ands [of sample_store "''users''" 0 sample_host "Single (Prim SNum1)"]
  by (simp add: eval_sample eval_match eval_host)

text \<open>
  More filters on the sample table: \<^verbatim>\<open>{id: true}\<close> selects the records whose id is \<open>1\<close> or
  \<^verbatim>\<open>"1"\<close>; \<^verbatim>\<open>{age: null}\<close> selects every record, none having an age; \<^verbatim>\<open>{id: 1, name: "c"}\<close>
  selects the third; \<^verbatim>\<open>"a"\<close> and \<^verbatim>\<open>{name: 1}\<close> select none.
\<close>

lemma sample_filters:
  "mem_get sample_host ''users'' (Single (Obj [(''id'', STrue)])) sample_store =
     Inr (RResult 1 ''users'',
          sample_store\<lparr>arrays := (arrays sample_store)(1 := [0, 2]), fresh := 2\<rparr>)"
  "mem_get sample_host ''users'' (Single (Obj [(''age'', SNull)])) sample_store =
     Inr (RResult 1 ''users'',
          sample_store\<lparr>arrays := (arrays sample_store)(1 := [0, 1, 2]), fresh := 2\<rparr>)"
  "mem_get sample_host ''users'' (Single (Obj [(''id'', SNum1), (''name'', SStr_c)])) sample_store =
     Inr (RResult 1 ''users'',
          sample_store\<lparr>arrays := (arrays sample_store)(1 := [2]), fresh := 2\<rparr>)"
  "mem_get sample_host ''users'' (Single (Prim SStr_a)) sample_store =
     Inr (RResult 1 ''users'',
          sample_store\<lparr>arrays := (arrays sample_store)(1 := []), fresh := 2\<rparr>)"
  "mem_get sample_host ''users'' (Single (Obj [(''name'', SNum1)])) sample_store =
     Inr (RResult 1 ''users'',
          sample_store\<lparr>arrays := (arrays sample_store)(1 := []), fresh := 2\<rparr>)"
  by (simp_all add: eval_get eval_sample eval_host)

text \<open>
  C8. On an existing table, the empty equality object matches every record, so
  \<^verbatim>\<open>get(table, {})\<close> returns all records of the table; the empty sequence matches none, so
  \<^verbatim>\<open>get(table, [])\<close> returns the empty array.
\<close>

theorem get_empty_clause_and_empty_sequence:
  assumes "db st table = Some a"
  shows "match_clause h item (Obj []) = Inr True \<and> some_clause h item [] = Inr False \<and>
     (\<exists>st'. mem_get h table (Single (Obj [])) st = Inr (RResult (fresh st) table, st') \<and>
            arrays st' (fresh st) = arrays st a) \<and>
     (\<exists>st'. mem_get h table (Seq []) st = Inr (RResult (fresh st) table, st') \<and>
            arrays st' (fresh st) = [])"
proof -
  have "valid_filter h (Single (Obj []))" and "valid_filter h (Seq [])"
    by (simp_all add: valid_filter_def)
  from mem_get_valid [OF assms this(1)] mem_get_valid [OF assms this(2)]
  show ?thesis
    by (simp add: spec_matches_def spec_matches_clause_def match_clause_def every_entry_def)
qed

theorem get_empty_clause_and_empty_sequence_witness:
  "db sample_store ''users'' = Some 0 \<and>
   (\<exists>st'. mem_get sample_host ''users'' (Single (Obj [])) sample_store =
            Inr (RResult 1 ''users'', st') \<and>
          arrays st' 1 = [0, 1, 2]) \<and>
   (\<exists>st'. mem_get sample_host ''users'' (Seq []) sample_store =
            Inr (RResult 1 ''users'', st') \<and>
          arrays st' 1 = [])"
  using get_empty_clause_and_empty_sequence [of sample_store "''users''" 0 sample_host]
  by (simp add: sample_store_def)

subsection \<open>Clauses that are neither scalars nor objects\<close>

lemma some_clause_append:
  "some_clause h item (cs @ ds) =
     (case some_clause h item cs of
        Inl e \<Rightarrow> Inl e
      | Inr b \<Rightarrow> if b then Inr True else some_clause h item ds)"
  by (induction cs) (simp_all split: sum.splits)

lemma filter_items_error:
  "item \<in> set items \<Longrightarrow> some_clause h (heap item) key = Inl e \<Longrightarrow>
   (\<And>i. i \<in> set items \<Longrightarrow>
      some_clause h (heap i) key = Inl e \<or> some_clause h (heap i) key = Inr True) \<Longrightarrow>
   filter_items h heap key items = Inl e"
proof (induction items)
  case Nil
  then show ?case by simp
next
  case (Cons i items)
  show ?case
  proof (cases "some_clause h (heap i) key")
    case (Inl e')
    with Cons.prems(3) [of i] show ?thesis by simp
  next
    case (Inr b)
    with Cons.prems(2) have "item \<noteq> i" by auto
    with Cons.prems(1) have "item \<in> set items" by simp
    from Cons.IH [OF this Cons.prems(2)] Cons.prems(3)
    have "filter_items h heap key items = Inl e" by simp
    with Inr show ?thesis by simp
  qed
qed

lemma some_clause_no_entries:
  assumes "list_all (valid_clause h) cs"
    and "type_of h val = TBoolean \<or> type_of h val = TSymbol \<or> type_of h val = TBigInt"
  shows "some_clause h item (map (wrap_scalar h pk) (cs @ Prim val # ds)) = Inr True"
  using assms
  by (auto simp: some_clause_append some_clause_valid match_clause_def every_entry_def
        is_scalar_def)

lemma some_clause_nullish:
  assumes "list_all (valid_clause h) cs"
    and "type_of h val = TNull \<or> type_of h val = TUndefined"
  shows "some_clause h item (map (wrap_scalar h pk) (cs @ Prim val # ds)) =
     (if spec_matches h pk item (Seq cs) then Inr True else Inl TypeError)"
  using assms
  by (auto simp: some_clause_append some_clause_valid match_clause_def spec_matches_def
        is_scalar_def)

text \<open>
  C9, as the code has it. No filter is rejected as invalid. With the clauses before it
  being scalars or objects, a boolean clause (as any primitive that is no string, number,
  \<^verbatim>\<open>null\<close> or \<^verbatim>\<open>undefined\<close>) raises nothing and matches every record, so \<^verbatim>\<open>get\<close> returns the
  whole table; a \<^verbatim>\<open>null\<close> or \<^verbatim>\<open>undefined\<close> clause makes \<^verbatim>\<open>get\<close> raise a \<^verbatim>\<open>TypeError\<close> exactly
  when some record of the table matches none of the clauses before it, and otherwise
  \<^verbatim>\<open>get\<close> returns the whole table (in particular on an empty table).
\<close>

theorem get_non_object_clause:
  assumes "db st table = Some a" and "concat_key key = cs @ Prim val # ds"
    and "list_all (valid_clause h) cs"
  shows "(type_of h val = TBoolean \<or> type_of h val = TSymbol \<or> type_of h val = TBigInt \<longrightarrow>
            mem_get h table key st =
              Inr (RResult (fresh st) table,
                   st\<lparr>arrays := (arrays st)(fresh st := arrays st a), fresh := Suc (fresh st)\<rparr>)) \<and>
         (type_of h val = TNull \<or> type_of h val = TUndefined \<longrightarrow>
            mem_get h table key st =
              (if list_all (\<lambda>item. spec_matches h (primKey st) (objs st item) (Seq cs))
                    (arrays st a)
               then Inr (RResult (fresh st) table,
                   st\<lparr>arrays := (arrays st)(fresh st := arrays st a), fresh := Suc (fresh st)\<rparr>)
               else Inl (TypeError, st)))"
proof (intro conjI impI)
  let ?key = "normalize_key h (primKey st) key"
  {
    assume "type_of h val = TBoolean \<or> type_of h val = TSymbol \<or> type_of h val = TBigInt"
    then have "filter_items h (objs st) ?key (arrays st a) =
        Inr (filter (\<lambda>item. True) (arrays st a))"
      using assms(2,3)
      by (intro filter_items_total)
         (simp add: normalize_key_def some_clause_no_entries del: map_append)
    then show "mem_get h table key st =
              Inr (RResult (fresh st) table,
                   st\<lparr>arrays := (arrays st)(fresh st := arrays st a), fresh := Suc (fresh st)\<rparr>)"
      using assms(1) by (simp add: mem_get_def db_read_table)
  }
  {
    assume v: "type_of h val = TNull \<or> type_of h val = TUndefined"
    let ?M = "\<lambda>item. spec_matches h (primKey st) (objs st item) (Seq cs)"
    have sc: "some_clause h (objs st item) ?key = (if ?M item then Inr True else Inl TypeError)"
      for item
      using some_clause_nullish [OF assms(3) v] assms(2)
      by (simp add: normalize_key_def del: map_append)
    show "mem_get h table key st =
              (if list_all ?M (arrays st a)
               then Inr (RResult (fresh st) table,
                   st\<lparr>arrays := (arrays st)(fresh st := arrays st a), fresh := Suc (fresh st)\<rparr>)
               else Inl (TypeError, st))"
    proof (cases "list_all ?M (arrays st a)")
      case True
      then have "filter_items h (objs st) ?key (arrays st a) =
          Inr (filter (\<lambda>item. True) (arrays st a))"
        by (intro filter_items_total) (simp add: sc list_all_iff)
      with True assms(1) show ?thesis by (simp add: mem_get_def db_read_table)
    next
      case False
      then obtain item where "item \<in> set (arrays st a)" and "\<not> ?M item"
        by (auto simp: list_all_iff)
      then have "filter_items h (objs st) ?key (arrays st a) = Inl TypeError"
        by (intro filter_items_error [of item]) (simp_all add: sc)
      with False assms(1) show ?thesis by (simp add: mem_get_def db_read_table)
    qed
  }
qed

text \<open>
  On the sample table: \<^verbatim>\<open>[2, null]\<close> raises (the first record does not have the key \<open>2\<close>),
  \<^verbatim>\<open>[2, true]\<close> returns all three records, and \<^verbatim>\<open>undefined\<close> on an empty table returns the
  empty array.
\<close>

theorem get_non_object_clause_witness:
  "db sample_store ''users'' = Some 0 \<and>
   concat_key (Seq [Prim SNum2, Prim SNull]) = [Prim SNum2] @ Prim SNull # [] \<and>
   list_all (valid_clause sample_host) [Prim SNum2] \<and>
   type_of sample_host SNull = TNull \<and> type_of sample_host STrue = TBoolean \<and>
   mem_get sample_host ''users'' (Seq [Prim SNum2, Prim SNull]) sample_store =
     Inl (TypeError, sample_store) \<and>
   mem_get sample_host ''users'' (Seq [Prim SNum2, Prim STrue]) sample_store =
     Inr (RResult 1 ''users'',
          sample_store\<lparr>arrays := (arrays sample_store)(1 := [0, 1, 2]), fresh := 2\<rparr>) \<and>
   mem_get sample_host ''users'' (Single (Prim SUndefined)) (sample_store\<lparr>arrays := (\<lambda>a. [])\<rparr>) =
     Inr (RResult 1 ''users'', sample_store\<lparr>arrays := (\<lambda>a. [])(1 := []), fresh := 2\<rparr>)"
proof -
  have t: "db sample_store ''users'' = Some 0"
    by (simp add: sample_store_def)
  have t': "db (sample_store\<lparr>arrays := (\<lambda>a. [])\<rparr>) ''users'' = Some 0"
    by (simp add: sample_store_def)
  have v: "list_all (valid_clause sample_host) [Prim SNum2]"
    by (simp add: eval_host)
  have n: "list_all (valid_clause sample_host) []" by simp
  have k1: "concat_key (Seq [Prim SNum2, Prim SNull]) = [Prim SNum2] @ Prim SNull # []"
    by simp
  have k2: "concat_key (Seq [Prim SNum2, Prim STrue]) = [Prim SNum2] @ Prim STrue # []"
    by simp
  have k3: "concat_key (Single (Prim SUndefined)) = [] @ Prim SUndefined # []" by simp
  from get_non_object_clause [OF t k1 v] get_non_object_clause [OF t k2 v]
    get_non_object_clause [OF t' k3 n] t
  show ?thesis
    by (simp add: eval_sample eval_match eval_host)
qed

text \<open>
  The claim as written fails on the boolean clause: \<^verbatim>\<open>get("users", true)\<close> on the sample
  table raises nothing and returns all three records.
\<close>

theorem boolean_clause_counterexample:
  "mem_get sample_host ''users'' (Single (Prim STrue)) sample_store =
     Inr (RResult 1 ''users'',
          sample_store\<lparr>arrays := (arrays sample_store)(1 := [0, 1, 2]), fresh := 2\<rparr>)"
  by (simp add: eval_get eval_sample eval_host)

subsection \<open>Reachable stores\<close>

lemma store_ok_init: "store_ok (init_store pk heap)"
  by (simp add: store_ok_def init_store_def)

lemma tables_distinct_init: "tables_distinct (init_store pk heap)"
  by (simp add: tables_distinct_def init_store_def)

lemma mem_set_cases:
  obtains (present) a where "db st table = Some a"
      and "mem_set h table obj st =
        (if max_args h < length (concat_arg obj) then Inl (RangeError, st)
         else Inr (RUndefined, array_push a (concat_arg obj) st))"
  | (absent) "db st table = None"
      and "mem_set h table obj st =
        (if max_args h < length (concat_arg obj) then Inl (RangeError, new_table table st)
         else Inr (RUndefined, array_push (fresh st) (concat_arg obj) (new_table table st)))"
proof (cases "db st table")
  case None
  then have "db_read h table st \<noteq> DArray a" for a by (simp add: db_read_DArray)
  then have "(case db_read h table st of DArray a \<Rightarrow> st | _ \<Rightarrow> new_table table st) =
      new_table table st"
    by (cases "db_read h table st") auto
  moreover have "db_read h table (new_table table st) = DArray (fresh st)"
    by (simp add: db_read_table new_table_def)
  ultimately have "mem_set h table obj st =
        (if max_args h < length (concat_arg obj) then Inl (RangeError, new_table table st)
         else Inr (RUndefined, array_push (fresh st) (concat_arg obj) (new_table table st)))"
    by (simp add: mem_set_def Let_def)
  with None show ?thesis by (rule absent)
next
  case (Some a)
  then have "db_read h table st = DArray a" by (rule db_read_table)
  then have "mem_set h table obj st =
        (if max_args h < length (concat_arg obj) then Inl (RangeError, st)
         else Inr (RUndefined, array_push a (concat_arg obj) st))"
    by (simp add: mem_set_def Let_def)
  with Some show ?thesis by (rule present)
qed

lemma store_ok_new_table: "store_ok st \<Longrightarrow> store_ok (new_table table st)"
  by (auto simp: store_ok_def new_table_def less_Suc_eq split: if_splits)

lemma store_ok_array_push: "store_ok st \<Longrightarrow> store_ok (array_push a xs st)"
  by (simp add: store_ok_def array_push_def)

lemma tables_distinct_new_table:
  "store_ok st \<Longrightarrow> tables_distinct st \<Longrightarrow> db st table = None \<Longrightarrow>
   tables_distinct (new_table table st)"
proof -
  assume ok: "store_ok st" and d: "tables_distinct st" and n: "db st table = None"
  have fr: "db st t \<noteq> Some (fresh st)" for t
    using ok by (auto simp: store_ok_def)
  show ?thesis
    unfolding tables_distinct_def inj_on_def
  proof (intro ballI impI)
    fix x y
    assume x: "x \<in> dom (db (new_table table st))" and y: "y \<in> dom (db (new_table table st))"
      and e: "db (new_table table st) x = db (new_table table st) y"
    show "x = y"
    proof (cases "x = table \<or> y = table")
      case True
      with e fr [of x] fr [of y] show ?thesis
        by (auto simp: new_table_def split: if_splits)
    next
      case False
      with x y e have "x \<in> dom (db st)" "y \<in> dom (db st)" "db st x = db st y"
        by (auto simp: new_table_def)
      with d show ?thesis by (auto simp: tables_distinct_def inj_on_def)
    qed
  qed
qed

lemma tables_distinct_array_push: "tables_distinct st \<Longrightarrow> tables_distinct (array_push a xs st)"
  by (simp add: tables_distinct_def array_push_def)

lemma store_ok_set:
  "store_ok st \<Longrightarrow> mem_set h table obj st = Inr (r, st') \<Longrightarrow> store_ok st'"
  by (rule mem_set_cases [of st table h obj])
     (auto simp: store_ok_new_table store_ok_array_push split: if_splits)

lemma tables_distinct_set:
  "store_ok st \<Longrightarrow> tables_distinct st \<Longrightarrow> mem_set h table obj st = Inr (r, st') \<Longrightarrow>
   tables_distinct st'"
  by (rule mem_set_cases [of st table h obj])
     (auto simp: tables_distinct_new_table tables_distinct_array_push split: if_splits)

lemma mem_get_Inr:
  assumes "mem_get h table key st = Inr (r, st')"
  obtains a result where "db st table = Some a"
    and "filter_items h (objs st) (normalize_key h (primKey st) key) (arrays st a) = Inr result"
    and "r = RResult (fresh st) table"
    and "st' = st\<lparr>arrays := (arrays st)(fresh st := result), fresh := Suc (fresh st)\<rparr>"
proof (cases "db_read h table st")
  case (DArray a)
  then have "db st table = Some a" by (simp add: db_read_DArray)
  with assms DArray that show ?thesis
    by (auto simp: mem_get_def Let_def split: sum.splits)
qed (use assms in \<open>simp_all add: mem_get_def\<close>)

lemma store_ok_get:
  "store_ok st \<Longrightarrow> mem_get h table key st = Inr (r, st') \<Longrightarrow> store_ok st'"
  by (erule mem_get_Inr) (auto simp: store_ok_def less_Suc_eq)

lemma tables_distinct_get:
  "tables_distinct st \<Longrightarrow> mem_get h table key st = Inr (r, st') \<Longrightarrow> tables_distinct st'"
  by (erule mem_get_Inr) (simp add: tables_distinct_def)

lemma store_ok_deleteAll:
  "store_ok st \<Longrightarrow> mem_deleteAll table st = Inr (r, st') \<Longrightarrow> store_ok st'"
  by (auto simp: store_ok_def mem_deleteAll_def split: if_splits)

lemma tables_distinct_deleteAll:
  "tables_distinct st \<Longrightarrow> mem_deleteAll table st = Inr (r, st') \<Longrightarrow> tables_distinct st'"
proof -
  assume d: "tables_distinct st" and m: "mem_deleteAll table st = Inr (r, st')"
  have "dom (db st') \<subseteq> dom (db st)" and "\<And>x. x \<in> dom (db st') \<Longrightarrow> db st' x = db st x"
    using m by (auto simp: mem_deleteAll_def split: if_splits)
  with d show ?thesis
    unfolding tables_distinct_def inj_on_def by (metis subsetD)
qed

lemma store_ok_sample: "store_ok sample_store"
  by (simp add: store_ok_def sample_store_def)

lemma tables_distinct_sample: "tables_distinct sample_store"
  by (simp add: tables_distinct_def sample_store_def)

subsection \<open>Retrieval is a read\<close>

lemma filter_items_subseq:
  "filter_items h heap key items = Inr result \<Longrightarrow> subseq result items"
proof (induction items arbitrary: result)
  case Nil
  then show ?case by simp
next
  case (Cons item items)
  then show ?case
    by (auto split: sum.splits if_splits)
qed

text \<open>
  C7. A \<^verbatim>\<open>get\<close> on an existing table that returns leaves \<^verbatim>\<open>db\<close>, the records and the rows of
  every table as they were; its result is a newly allocated array whose elements are
  record references taken from the table, in table order.
\<close>

theorem get_never_mutates:
  assumes "store_ok st" and "db st table = Some a" and "mem_get h table key st = Inr (r, st')"
  shows "db st' = db st \<and> objs st' = objs st \<and> primKey st' = primKey st \<and>
     (\<forall>t. rows t st' = rows t st) \<and>
     r = RResult (fresh st) table \<and> subseq (arrays st' (fresh st)) (arrays st a)"
proof -
  from assms(3) obtain a' result where a': "db st table = Some a'"
    and f: "filter_items h (objs st) (normalize_key h (primKey st) key) (arrays st a') =
      Inr result"
    and r: "r = RResult (fresh st) table"
    and st': "st' = st\<lparr>arrays := (arrays st)(fresh st := result), fresh := Suc (fresh st)\<rparr>"
    by (rule mem_get_Inr)
  from a' assms(2) have [simp]: "a' = a" by simp
  have "rows t st' = rows t st" for t
  proof (cases "db st t")
    case None
    then show ?thesis by (simp add: rows_def st')
  next
    case (Some b)
    with assms(1) have "b \<noteq> fresh st" by (auto simp: store_ok_def)
    with Some show ?thesis by (simp add: rows_def st')
  qed
  moreover have "subseq (arrays st' (fresh st)) (arrays st a)"
    using filter_items_subseq [OF f] by (simp add: st')
  ultimately show ?thesis by (simp add: st' r)
qed

theorem get_never_mutates_witness:
  "store_ok sample_store \<and> db sample_store ''users'' = Some 0 \<and>
   mem_get sample_host ''users'' (Single (Prim SNum1)) sample_store =
     Inr (RResult 1 ''users'',
          sample_store\<lparr>arrays := (arrays sample_store)(1 := [0, 2]), fresh := 2\<rparr>) \<and>
   rows ''users'' (sample_store\<lparr>arrays := (arrays sample_store)(1 := [0, 2]), fresh := 2\<rparr>) =
     Some [0, 1, 2] \<and>
   subseq [0, 2 :: nat] [0, 1, 2]"
proof -
  let ?st' = "sample_store\<lparr>arrays := (arrays sample_store)(1 := [0, 2]), fresh := 2\<rparr>"
  have ok: "store_ok sample_store" by (rule store_ok_sample)
  have t: "db sample_store ''users'' = Some 0" by (simp add: sample_store_def)
  have g: "mem_get sample_host ''users'' (Single (Prim SNum1)) sample_store =
      Inr (RResult 1 ''users'', ?st')"
    by (simp add: eval_get eval_sample eval_host)
  from get_never_mutates [OF ok t g] ok t g show ?thesis
    by (simp add: rows_def sample_store_def)
qed

subsection \<open>Insertion\<close>

text \<open>
  A batch within the number of arguments the host accepts: \<^verbatim>\<open>set\<close> returns \<^verbatim>\<open>undefined\<close>,
  the table exists afterwards and holds its former rows followed by the given records in
  input order, an existing table keeps its array, every other table keeps its rows, and
  no record is changed.
\<close>

lemma set_appends_within_limit:
  assumes "length (concat_arg obj) \<le> max_args h" and "store_ok st" and "tables_distinct st"
  shows "\<exists>st'. mem_set h table obj st = Inr (RUndefined, st') \<and>
     rows table st' =
       Some ((case rows table st of None \<Rightarrow> [] | Some old \<Rightarrow> old) @ concat_arg obj) \<and>
     (\<forall>t. t \<noteq> table \<longrightarrow> rows t st' = rows t st \<and> db st' t = db st t) \<and>
     (\<forall>a. db st table = Some a \<longrightarrow> db st' table = Some a) \<and>
     objs st' = objs st \<and> primKey st' = primKey st"
proof (rule mem_set_cases [of st table h obj])
  fix a
  assume a: "db st table = Some a"
    and m: "mem_set h table obj st =
        (if max_args h < length (concat_arg obj) then Inl (RangeError, st)
         else Inr (RUndefined, array_push a (concat_arg obj) st))"
  have other: "rows t (array_push a (concat_arg obj) st) = rows t st" if "t \<noteq> table" for t
  proof (cases "db st t")
    case None
    then show ?thesis by (simp add: rows_def array_push_def)
  next
    case (Some b)
    with a that assms(3) have "b \<noteq> a"
      by (auto simp: tables_distinct_def inj_on_def dom_def)
    with Some show ?thesis by (simp add: rows_def array_push_def)
  qed
  have "rows table (array_push a (concat_arg obj) st) = Some (arrays st a @ concat_arg obj)"
    using a by (simp add: rows_def array_push_def)
  moreover have "rows table st = Some (arrays st a)"
    using a by (simp add: rows_def)
  moreover have "db (array_push a (concat_arg obj) st) = db st"
    and "objs (array_push a (concat_arg obj) st) = objs st"
    and "primKey (array_push a (concat_arg obj) st) = primKey st"
    by (simp_all add: array_push_def)
  ultimately show ?thesis
    using m assms(1) a other by simp
next
  assume n: "db st table = None"
    and m: "mem_set h table obj st =
        (if max_args h < length (concat_arg obj) then Inl (RangeError, new_table table st)
         else Inr (RUndefined, array_push (fresh st) (concat_arg obj) (new_table table st)))"
  let ?st' = "array_push (fresh st) (concat_arg obj) (new_table table st)"
  have other: "rows t ?st' = rows t st" if "t \<noteq> table" for t
  proof (cases "db st t")
    case None
    with that show ?thesis by (simp add: rows_def array_push_def new_table_def)
  next
    case (Some b)
    with assms(2) have "b \<noteq> fresh st" by (auto simp: store_ok_def)
    with Some that show ?thesis by (simp add: rows_def array_push_def new_table_def)
  qed
  have "rows table ?st' = Some (concat_arg obj)"
    by (simp add: rows_def array_push_def new_table_def)
  moreover have "rows table st = None"
    using n by (simp add: rows_def)
  moreover have "db ?st' t = db st t" if "t \<noteq> table" for t
    using that by (simp add: array_push_def new_table_def)
  moreover have "objs ?st' = objs st" and "primKey ?st' = primKey st"
    by (simp_all add: array_push_def new_table_def)
  ultimately show ?thesis
    using m assms(1) n other by simp
qed

text \<open>
  C5. On a host that accepts \<open>500000\<close> arguments in a call, \<^verbatim>\<open>set("users", batch)\<close> with a
  batch of \<open>600000\<close> records on a new store throws a \<^verbatim>\<open>RangeError\<close>: the table has been
  created and holds none of the records.
\<close>

theorem set_large_batch_range_error:
  "mem_set sample_host ''users'' (Many (replicate 600000 0)) (init_store None sample_heap) =
     Inl (RangeError, new_table ''users'' (init_store None sample_heap)) \<and>
   rows ''users'' (new_table ''users'' (init_store None sample_heap)) = Some []"
  by (simp add: mem_set_def db_read_def init_store_def new_table_def rows_def sample_host_def)

subsection \<open>Whole-table reads\<close>

lemma db_read_init:
  "db_read h name (init_store pk heap) =
     (if name = ''__proto__'' then DPrototype
      else if object_proto h name then DMethod ObjectPrototype name
      else DUndefined)"
  by (simp add: db_read_def init_store_def)

lemma mem_set_live:
  assumes "db st table = Some a" and "length (concat_arg obj) \<le> max_args h"
  shows "mem_set h table obj st = Inr (RUndefined, array_push a (concat_arg obj) st)"
  using assms by (simp add: mem_set_def db_read_table Let_def array_push_def)

text \<open>
  C6, as the code has it. \<^verbatim>\<open>getAll\<close> never fails: it returns the value of \<^verbatim>\<open>db[table]\<close>. On
  an existing table that is the table's own array: a later \<^verbatim>\<open>set\<close> on the table shows
  through the returned reference. On a missing table it is what the plain object \<^verbatim>\<open>db\<close>
  yields under the name: \<^verbatim>\<open>undefined\<close> for every name its prototype chain does not define
  (on a new store and after \<^verbatim>\<open>deleteAll\<close>, every name that is no property of
  \<^verbatim>\<open>Object.prototype\<close>), and the inherited value for the others.
\<close>

theorem getAll_live_or_inherited:
  "mem_getAll h table st = Inr (value_of (db_read h table st), st) \<and>
   (db st table = Some a \<longrightarrow>
      mem_getAll h table st = Inr (RArray a, st) \<and>
      (\<forall>obj. length (concat_arg obj) \<le> max_args h \<longrightarrow>
        (\<exists>st'. mem_set h table obj st = Inr (RUndefined, st') \<and>
          arrays st' a = arrays st a @ concat_arg obj \<and>
          mem_getAll h table st' = Inr (RArray a, st')))) \<and>
   (db_read h table st = DUndefined \<longrightarrow> mem_getAll h table st = Inr (RUndefined, st)) \<and>
   (table \<noteq> ''__proto__'' \<and> \<not> object_proto h table \<longrightarrow>
      mem_getAll h table (init_store pk heap) = Inr (RUndefined, init_store pk heap)) \<and>
   (table \<noteq> ''__proto__'' \<and> \<not> object_proto h table \<and> db st ''__proto__'' = None \<longrightarrow>
      (\<exists>st'. mem_deleteAll table st = Inr (RBool True, st') \<and>
         mem_getAll h table st' = Inr (RUndefined, st'))) \<and>
   (table \<noteq> ''__proto__'' \<and> object_proto h table \<longrightarrow>
      mem_getAll h table (init_store pk heap) =
        Inr (RInherited (DMethod ObjectPrototype table), init_store pk heap)) \<and>
   mem_getAll h ''__proto__'' (init_store pk heap) =
     Inr (RInherited DPrototype, init_store pk heap)"
proof -
  have live: "\<exists>st'. mem_set h table obj st = Inr (RUndefined, st') \<and>
          arrays st' a = arrays st a @ concat_arg obj \<and>
          mem_getAll h table st' = Inr (RArray a, st')"
    if "db st table = Some a" and "length (concat_arg obj) \<le> max_args h" for obj
    using mem_set_live [OF that] that(1)
    by (simp add: array_push_def mem_getAll_def db_read_table)
  have gone: "mem_getAll h table (st\<lparr>db := (db st)(table := None)\<rparr>) =
      Inr (RUndefined, st\<lparr>db := (db st)(table := None)\<rparr>)"
    if "table \<noteq> ''__proto__''" and "\<not> object_proto h table" and "db st ''__proto__'' = None"
    using that by (simp add: mem_getAll_def db_read_def)
  show ?thesis
    using live gone
    by (simp add: mem_getAll_def db_read_table db_read_init mem_deleteAll_def)
qed

theorem getAll_live_or_inherited_witness:
  "db sample_store ''users'' = Some 0 \<and>
   mem_getAll sample_host ''users'' sample_store = Inr (RArray 0, sample_store) \<and>
   length (concat_arg (One 1)) \<le> max_args sample_host \<and>
   (\<exists>st'. mem_set sample_host ''users'' (One 1) sample_store = Inr (RUndefined, st') \<and>
          arrays st' 0 = [0, 1, 2, 1]) \<and>
   db_read sample_host ''orders'' sample_store = DUndefined \<and>
   mem_getAll sample_host ''orders'' sample_store = Inr (RUndefined, sample_store) \<and>
   ''orders'' \<noteq> ''__proto__'' \<and> \<not> object_proto sample_host ''orders'' \<and>
   mem_getAll sample_host ''orders'' (init_store None sample_heap) =
     Inr (RUndefined, init_store None sample_heap) \<and>
   ''constructor'' \<noteq> ''__proto__'' \<and> object_proto sample_host ''constructor'' \<and>
   mem_getAll sample_host ''constructor'' (init_store None sample_heap) =
     Inr (RInherited (DMethod ObjectPrototype ''constructor''), init_store None sample_heap) \<and>
   ''users'' \<noteq> ''__proto__'' \<and> \<not> object_proto sample_host ''users'' \<and>
   db sample_store ''__proto__'' = None \<and>
   (\<exists>st'. mem_deleteAll ''users'' sample_store = Inr (RBool True, st') \<and>
          mem_getAll sample_host ''users'' st' = Inr (RUndefined, st'))"
  using getAll_live_or_inherited [of sample_host "''users''" sample_store 0]
    getAll_live_or_inherited [of sample_host "''orders''" sample_store _ None sample_heap]
    getAll_live_or_inherited [of sample_host "''constructor''" sample_store _ None sample_heap]
  by (simp add: sample_store_def sample_host_def mem_set_def array_push_def db_read_def
        mem_deleteAll_def mem_getAll_def)

text \<open>
  The claim as written fails on a table that never received an insert: \<^verbatim>\<open>getAll("users")\<close>
  on a new store returns \<^verbatim>\<open>undefined\<close> and raises nothing.
\<close>

theorem getAll_missing_counterexample:
  "db (init_store None sample_heap) ''users'' = None \<and>
   mem_getAll sample_host ''users'' (init_store None sample_heap) =
     Inr (RUndefined, init_store None sample_heap)"
  by (simp add: mem_getAll_def db_read_def init_store_def sample_host_def)

subsection \<open>Table-scoped and store-wide handles\<close>

text \<open>
  C10, as the code has it. For a non-empty name under which \<^verbatim>\<open>db\<close> yields \<^verbatim>\<open>undefined\<close> (on a
  new store and after \<^verbatim>\<open>deleteAll\<close>: every name that is no property of \<^verbatim>\<open>Object.prototype\<close>)
  \<^verbatim>\<open>use(name)\<close> raises a \<^verbatim>\<open>TypeError\<close>; after an insert into the table it returns a handle
  bound to the name, which passes the name as the first argument. For a name \<^verbatim>\<open>db\<close>
  inherits as an object \<^verbatim>\<open>use(name)\<close> raises nothing and returns a handle over the inherited
  object. \<^verbatim>\<open>use()\<close> and \<^verbatim>\<open>use("")\<close> always return a store-wide handle, as \<^verbatim>\<open>memDB\<close> does; a call
  of a feature on it passes exactly the caller's arguments, so the table name is the
  caller's first argument.
\<close>

theorem use_handle:
  "(t \<noteq> [] \<and> db_read h t st = DUndefined \<longrightarrow> mem_use h (Some t) st = Inl (TypeError, st)) \<and>
   (t \<noteq> [] \<and> t \<noteq> ''__proto__'' \<and> \<not> object_proto h t \<longrightarrow>
      mem_use h (Some t) (init_store pk heap) = Inl (TypeError, init_store pk heap)) \<and>
   (t \<noteq> [] \<and> t \<noteq> ''__proto__'' \<and> \<not> object_proto h t \<and> db st ''__proto__'' = None \<longrightarrow>
      (\<exists>st'. mem_deleteAll t st = Inr (RBool True, st') \<and>
         mem_use h (Some t) st' = Inl (TypeError, st'))) \<and>
   (t \<noteq> [] \<and> length (concat_arg obj) \<le> max_args h \<longrightarrow>
      (\<exists>st' a. mem_set h t obj st = Inr (RUndefined, st') \<and>
         mem_use h (Some t) st' = Inr (RHandle (Handle (Table a) (Some t)), st'))) \<and>
   (t \<noteq> [] \<and> t \<noteq> ''__proto__'' \<and> object_proto h t \<longrightarrow>
      mem_use h (Some t) (init_store pk heap) =
        Inr (RHandle (Handle (Inherited (DMethod ObjectPrototype t)) (Some t)),
             init_store pk heap)) \<and>
   mem_use h None st = Inr (RHandle (Handle Db None), st) \<and>
   mem_use h (Some []) st = Inr (RHandle (Handle Db (Some [])), st) \<and>
   memDB h pk heap = Inr (RHandle (Handle Db None), init_store pk heap) \<and>
   forwarded (Handle Db None) args = args \<and> forwarded (Handle Db (Some [])) args = args \<and>
   handle_call h (Handle Db None) prop args st =
     (case features prop of None \<Rightarrow> None | Some f \<Rightarrow> call_feature h f args st) \<and>
   handle_call h (Handle Db (Some [])) prop args st =
     (case features prop of None \<Rightarrow> None | Some f \<Rightarrow> call_feature h f args st) \<and>
   handle_call h (Handle Db None) ''set'' [AString t, ARecords obj] st =
     Some (mem_set h t obj st) \<and>
   handle_call h (Handle Db None) ''get'' [AString t, AFilter key] st =
     Some (mem_get h t key st) \<and>
   handle_call h (Handle Db None) ''getAll'' [AString t] st = Some (mem_getAll h t st) \<and>
   handle_call h (Handle Db None) ''update'' [AString t, AFilter key, ACallback cb] st =
     Some (mem_update h t key cb st) \<and>
   handle_call h (Handle Db None) ''delete'' [AString t, AFilter key] st =
     Some (mem_delete h t key st) \<and>
   handle_call h (Handle Db None) ''deleteAll'' [AString t] st = Some (mem_deleteAll t st) \<and>
   (t \<noteq> [] \<longrightarrow>
      handle_call h (Handle (Table a) (Some t)) ''get'' [AFilter key] st =
        Some (mem_get h t key st))"
proof -
  have gone: "mem_use h (Some t) (st\<lparr>db := (db st)(t := None)\<rparr>) =
      Inl (TypeError, st\<lparr>db := (db st)(t := None)\<rparr>)"
    if "t \<noteq> []" and "t \<noteq> ''__proto__''" and "\<not> object_proto h t" and "db st ''__proto__'' = None"
    using that by (simp add: mem_use_def truthy_def db_read_def)
  have made: "\<exists>st' a. mem_set h t obj st = Inr (RUndefined, st') \<and>
         mem_use h (Some t) st' = Inr (RHandle (Handle (Table a) (Some t)), st')"
    if "t \<noteq> []" and "length (concat_arg obj) \<le> max_args h"
  proof (rule mem_set_cases [of st t h obj])
    fix a
    assume "db st t = Some a"
      and "mem_set h t obj st =
        (if max_args h < length (concat_arg obj) then Inl (RangeError, st)
         else Inr (RUndefined, array_push a (concat_arg obj) st))"
    with that show ?thesis
      by (simp add: mem_use_def truthy_def db_read_def array_push_def)
  next
    assume "db st t = None"
      and "mem_set h t obj st =
        (if max_args h < length (concat_arg obj) then Inl (RangeError, new_table t st)
         else Inr (RUndefined, array_push (fresh st) (concat_arg obj) (new_table t st)))"
    with that show ?thesis
      by (simp add: mem_use_def truthy_def db_read_def array_push_def new_table_def)
  qed
  show ?thesis
    using gone made
    by (simp add: mem_use_def truthy_def db_read_init memDB_def mem_deleteAll_def
          handle_call_def forwarded_def features_def)
qed

theorem use_handle_witness:
  "''users'' \<noteq> [] \<and> db_read sample_host ''users'' (init_store None sample_heap) = DUndefined \<and>
   mem_use sample_host (Some ''users'') (init_store None sample_heap) =
     Inl (TypeError, init_store None sample_heap) \<and>
   mem_use sample_host (Some ''users'') sample_store =
     Inr (RHandle (Handle (Table 0) (Some ''users'')), sample_store) \<and>
   mem_use sample_host (Some ''constructor'') (init_store None sample_heap) =
     Inr (RHandle (Handle (Inherited (DMethod ObjectPrototype ''constructor''))
            (Some ''constructor'')), init_store None sample_heap) \<and>
   handle_call sample_host (Handle (Table 0) (Some ''users'')) ''getAll'' [] sample_store =
     Some (Inr (RArray 0, sample_store)) \<and>
   handle_call sample_host (Handle Db None) ''getAll'' [AString ''users''] sample_store =
     Some (Inr (RArray 0, sample_store)) \<and>
   ''users'' \<noteq> ''__proto__'' \<and> \<not> object_proto sample_host ''users'' \<and>
   db sample_store ''__proto__'' = None \<and>
   (\<exists>st'. mem_deleteAll ''users'' sample_store = Inr (RBool True, st') \<and>
          mem_use sample_host (Some ''users'') st' = Inl (TypeError, st')) \<and>
   length (concat_arg (One 0)) \<le> max_args sample_host \<and>
   (\<exists>st'. mem_set sample_host ''users'' (One 0) (init_store None sample_heap) =
            Inr (RUndefined, st') \<and>
          mem_use sample_host (Some ''users'') st' =
            Inr (RHandle (Handle (Table 0) (Some ''users'')), st'))"
  using use_handle [of "''users''" sample_host "init_store None sample_heap" None sample_heap]
    use_handle [of "''users''" sample_host sample_store]
    use_handle [of "''constructor''" sample_host sample_store None sample_heap]
  by (simp add: init_store_def mem_use_def truthy_def sample_store_def handle_call_def
        forwarded_def features_def mem_getAll_def db_read_def sample_host_def
        mem_deleteAll_def mem_set_def new_table_def array_push_def)

text \<open>
  The claim as written fails on the empty table name: no table of that name exists in a
  new store, and \<^verbatim>\<open>use("")\<close> raises nothing and returns a store-wide handle.
\<close>

theorem use_empty_name_counterexample:
  "db (init_store None sample_heap) [] = None \<and>
   mem_use sample_host (Some []) (init_store None sample_heap) =
     Inr (RHandle (Handle Db (Some [])), init_store None sample_heap)"
  by (simp add: mem_use_def truthy_def init_store_def)

text \<open>
  Calls through the store-wide handle with arguments left out or added: a missing table
  name is the property name \<^verbatim>\<open>"undefined"\<close>, a missing filter is the value \<^verbatim>\<open>undefined\<close>, an
  argument beyond the parameters is ignored, and a property that is no feature is no
  operation of the store.
\<close>

lemma call_with_missing_arguments:
  "handle_call h (Handle Db None) ''getAll'' [] st = Some (mem_getAll h ''undefined'' st)"
  "handle_call h (Handle Db None) ''get'' [AString t] st =
     Some (mem_get h t (Single (Prim (undefined_val h))) st)"
  "handle_call h (Handle Db None) ''use'' [] st = Some (mem_use h None st)"
  "handle_call h (Handle Db None) ''use'' [AString t] st = Some (mem_use h (Some t) st)"
  "handle_call h (Handle Db None) ''getAll'' [AString t, AString t'] st =
     Some (mem_getAll h t st)"
  "handle_call h (Handle Db None) ''length'' args st = None"
  by (simp_all add: handle_call_def forwarded_def features_def)

subsection \<open>Names that \<^verbatim>\<open>db\<close> inherits\<close>

text \<open>
  After \<^verbatim>\<open>db.set("__proto__", r0)\<close> on a new store the array is the prototype of \<^verbatim>\<open>db\<close>: it is
  read back as a table, its index and its \<^verbatim>\<open>length\<close> show through \<^verbatim>\<open>db\<close>, \<^verbatim>\<open>use("length")\<close>
  finds a number and throws, \<^verbatim>\<open>use("0")\<close> finds the record, and \<^verbatim>\<open>deleteAll("__proto__")\<close>
  removes nothing. On the sample store \<^verbatim>\<open>get("constructor", [])\<close> throws, and
  \<^verbatim>\<open>deleteAll("users")\<close> removes the table.
\<close>

lemma inherited_names_sample:
  "mem_set sample_host ''__proto__'' (One 0) (init_store None sample_heap) =
     Inr (RUndefined, proto_store)"
  "mem_getAll sample_host ''__proto__'' proto_store = Inr (RArray 0, proto_store)"
  "db_read sample_host ''0'' proto_store = DRecord 0"
  "db_read sample_host ''1'' proto_store = DUndefined"
  "db_read sample_host ''length'' proto_store = DLength 1"
  "db_read sample_host ''push'' proto_store = DMethod ArrayPrototype ''push''"
  "db_read sample_host ''valueOf'' proto_store = DMethod ObjectPrototype ''valueOf''"
  "mem_use sample_host (Some ''length'') proto_store = Inl (TypeError, proto_store)"
  "mem_use sample_host (Some ''0'') proto_store =
     Inr (RHandle (Handle (Inherited (DRecord 0)) (Some ''0'')), proto_store)"
  "mem_deleteAll ''__proto__'' proto_store = Inr (RBool True, proto_store)"
  "mem_get sample_host ''constructor'' (Seq []) sample_store = Inl (TypeError, sample_store)"
  "mem_deleteAll ''users'' sample_store = Inr (RBool True, sample_store\<lparr>db := Map.empty\<rparr>)"
  by (simp_all add: mem_set_def mem_getAll_def mem_use_def mem_deleteAll_def mem_get_def
        db_read_def truthy_def init_store_def new_table_def array_push_def sample_store_def
        proto_store_def sample_host_def)

subsection \<open>Update, delete and the deletion closure\<close>

lemma indexOf_from_absent: "item \<notin> set xs \<Longrightarrow> indexOf_from xs item k = - 1"
  by (induction xs arbitrary: k) auto

lemma indexOf_from_present:
  "item \<in> set xs \<Longrightarrow>
   \<exists>i < length xs. indexOf_from xs item k = int (k + i) \<and>
     take i xs @ drop (Suc i) xs = remove1 item xs"
proof (induction xs arbitrary: k)
  case Nil
  then show ?case by simp
next
  case (Cons x xs)
  show ?case
  proof (cases "x = item")
    case True
    then show ?thesis by (intro exI [of _ 0]) simp
  next
    case False
    with Cons.prems have "item \<in> set xs" by simp
    from Cons.IH [OF this, of "Suc k"] obtain i where "i < length xs"
      and "indexOf_from xs item (Suc k) = int (Suc k + i)"
      and "take i xs @ drop (Suc i) xs = remove1 item xs"
      by blast
    with False show ?thesis by (intro exI [of _ "Suc i"]) simp
  qed
qed

lemma splice1_present: "item \<in> set xs \<Longrightarrow> splice1 xs (indexOf xs item) = remove1 item xs"
  using indexOf_from_present [of item xs 0]
  by (auto simp: splice1_def indexOf_def Let_def min_def)

lemma splice1_absent: "item \<notin> set xs \<Longrightarrow> splice1 xs (indexOf xs item) = butlast xs"
proof (cases "xs = []")
  case True
  then show ?thesis by (simp add: splice1_def indexOf_def)
next
  case False
  assume "item \<notin> set xs"
  then have "indexOf xs item = - 1" by (simp add: indexOf_def indexOf_from_absent)
  moreover from False have "nat (int (length xs) - 1) = length xs - 1" by simp
  moreover from False have "Suc (length xs - 1) = length xs" by simp
  ultimately show ?thesis
    using False by (simp add: splice1_def Let_def max_def butlast_conv_take)
qed

text \<open>A record that is not in the table costs the table its last row.\<close>

lemma deleteItem_stale:
  "item \<notin> set (arrays st a) \<Longrightarrow>
   deleteItem (DArray a) item st = Inr (st\<lparr>arrays := (arrays st)(a := butlast (arrays st a))\<rparr>)"
  by (simp add: deleteItem_def splice1_absent)

lemma forEach_from_delete:
  assumes "db st table = Some a" and "a \<noteq> rr" and "k + n = length (arrays st rr)"
  shows "forEach_from rr k n (\<lambda>item s. deleteItem (db_read h table s) item s) st =
     Inr (st\<lparr>arrays := (arrays st)(a :=
        fold (\<lambda>item xs. splice1 xs (indexOf xs item)) (drop k (arrays st rr)) (arrays st a))\<rparr>)"
  using assms
proof (induction n arbitrary: k st)
  case 0
  then show ?case by simp
next
  case (Suc n)
  let ?st' = "st\<lparr>arrays := (arrays st)(a :=
       splice1 (arrays st a) (indexOf (arrays st a) (arrays st rr ! k)))\<rparr>"
  from Suc.prems have k: "k < length (arrays st rr)" by simp
  let ?del = "\<lambda>item s. deleteItem (db_read h table s) item s"
  let ?f = "\<lambda>item xs. splice1 xs (indexOf xs item)"
  have step: "forEach_from rr k (Suc n) ?del st = forEach_from rr (Suc k) n ?del ?st'"
    using Suc.prems(1) k by (simp add: deleteItem_def db_read_table)
  have rr: "arrays ?st' rr = arrays st rr"
    and a: "arrays ?st' a = ?f (arrays st rr ! k) (arrays st a)"
    using Suc.prems(2) by simp_all
  have ih: "forEach_from rr (Suc k) n ?del ?st' =
     Inr (?st'\<lparr>arrays := (arrays ?st')(a :=
        fold ?f (drop (Suc k) (arrays ?st' rr)) (arrays ?st' a))\<rparr>)"
    using Suc.prems by (intro Suc.IH) simp_all
  have eq: "?st'\<lparr>arrays := (arrays ?st')(a :=
        fold ?f (drop (Suc k) (arrays ?st' rr)) (arrays ?st' a))\<rparr> =
      st\<lparr>arrays := (arrays st)(a := fold ?f (drop k (arrays st rr)) (arrays st a))\<rparr>"
    unfolding rr a using k by (simp add: Cons_nth_drop_Suc [symmetric])
  show ?case unfolding step ih eq ..
qed

lemma fold_remove_filter:
  "\<forall>p \<in> set pre. \<not> P p \<Longrightarrow>
   fold (\<lambda>item xs. splice1 xs (indexOf xs item)) (filter P xs) (pre @ xs) =
     pre @ filter (\<lambda>x. \<not> P x) xs"
proof (induction xs arbitrary: pre)
  case Nil
  then show ?case by simp
next
  case (Cons x xs)
  show ?case
  proof (cases "P x")
    case True
    with Cons.prems have "x \<notin> set pre" by auto
    then have "remove1 x (pre @ x # xs) = pre @ xs" by (simp add: remove1_append)
    with True Cons.IH [OF Cons.prems] show ?thesis
      by (simp add: splice1_present)
  next
    case False
    with Cons.prems have "\<forall>p \<in> set (pre @ [x]). \<not> P p" by simp
    from Cons.IH [OF this] False show ?thesis by simp
  qed
qed

lemma filter_items_filter:
  "filter_items h heap key items = Inr result \<Longrightarrow>
   result = filter (\<lambda>i. some_clause h (heap i) key = Inr True) items"
proof (induction items arbitrary: result)
  case Nil
  then show ?case by simp
next
  case (Cons item items)
  then show ?case
    by (auto split: sum.splits if_splits)
qed

text \<open>
  The deletion closure called while every record of the result is still in the table (in
  particular right after the retrieval): it removes exactly the rows that are in the
  result and keeps the others in their order.
\<close>

lemma result_delete_after_get:
  assumes "store_ok st" and "db st table = Some a" and "mem_get h table key st = Inr (r, st1)"
  shows "\<exists>st2. result_delete h r st1 = Inr (RUndefined, st2) \<and>
     rows table st2 = Some (filter (\<lambda>i. i \<notin> set (arrays st1 (fresh st))) (arrays st a)) \<and>
     objs st2 = objs st \<and> db st2 = db st"
proof -
  from assms(3) obtain a' result where a': "db st table = Some a'"
    and f: "filter_items h (objs st) (normalize_key h (primKey st) key) (arrays st a') =
      Inr result"
    and r: "r = RResult (fresh st) table"
    and st1: "st1 = st\<lparr>arrays := (arrays st)(fresh st := result), fresh := Suc (fresh st)\<rparr>"
    by (rule mem_get_Inr)
  from a' assms(2) have [simp]: "a' = a" by simp
  from assms(1,2) have ne: "a \<noteq> fresh st" by (auto simp: store_ok_def)
  let ?P = "\<lambda>i. some_clause h (objs st i) (normalize_key h (primKey st) key) = Inr True"
  from filter_items_filter [OF f] have res: "result = filter ?P (arrays st a)" by simp
  have "db st1 table = Some a" using assms(2) by (simp add: st1)
  from forEach_from_delete [OF this ne, of 0 "length (arrays st1 (fresh st))" h]
  have "forEach (fresh st) (\<lambda>item s. deleteItem (db_read h table s) item s) st1 =
     Inr (st1\<lparr>arrays := (arrays st1)(a :=
        fold (\<lambda>item xs. splice1 xs (indexOf xs item)) result (arrays st a))\<rparr>)"
    using ne by (simp add: forEach_def st1)
  moreover have "fold (\<lambda>item xs. splice1 xs (indexOf xs item)) result (arrays st a) =
      filter (\<lambda>x. \<not> ?P x) (arrays st a)"
    using fold_remove_filter [of "[]" ?P "arrays st a"] by (simp add: res)
  moreover have "filter (\<lambda>x. \<not> ?P x) (arrays st a) =
      filter (\<lambda>i. i \<notin> set result) (arrays st a)"
    by (rule filter_cong) (auto simp: res)
  ultimately show ?thesis
    using assms(2) ne by (simp add: result_delete_def r rows_def st1)
qed

text \<open>
  \<^verbatim>\<open>forEach\<close> reads the array as it goes: run over the sample table itself, the deleting
  callback removes the first record, then finds the third at index \<open>1\<close> and removes it, and
  finds nothing at index \<open>2\<close>; the second record is never visited. The closure of \<^verbatim>\<open>_get\<close>
  runs over the result array instead, which no deletion changes.
\<close>

lemma forEach_live_array:
  "forEach 0 (\<lambda>item s. deleteItem (DArray 0) item s) sample_store =
     Inr (sample_store\<lparr>arrays := (arrays sample_store)(0 := [1])\<rparr>)"
  by (simp add: forEach_def deleteItem_def indexOf_def splice1_def sample_store_def)

text \<open>
  When the table has been removed between the retrieval and the call of the closure, the
  closure throws at its first record and changes nothing; a plain array, as \<^verbatim>\<open>getAll\<close>
  returns it, has no closure to call.
\<close>

lemma result_delete_missing_table:
  "and_then (mem_get sample_host ''users'' (Single (Obj [(''name'', SStr_a)])) sample_store)
     (\<lambda>r s1. and_then (mem_deleteAll ''users'' s1) (\<lambda>u s2. result_delete sample_host r s2)) =
   Inl (TypeError,
        sample_store\<lparr>db := Map.empty, arrays := (arrays sample_store)(1 := [0]), fresh := 2\<rparr>)"
  "result_delete sample_host (RArray 0) sample_store = Inl (TypeError, sample_store)"
  by (simp_all add: eval_get eval_sample eval_host and_then_def result_delete_def forEach_def
        deleteItem_def mem_deleteAll_def)

text \<open>
  C3. \<^verbatim>\<open>update\<close> calls the undeclared identifier \<^verbatim>\<open>get\<close>: on every table, filter and
  callback it raises a \<^verbatim>\<open>ReferenceError\<close> before any retrieval and before the callback
  runs, and leaves the store as it was, directly and through the store-wide handle.
\<close>

theorem update_throws_reference_error:
  "mem_update h table key cb st = Inl (ReferenceError ''get'', st) \<and>
   handle_call h (Handle Db None) ''update'' [AString table, AFilter key, ACallback cb] st =
     Some (Inl (ReferenceError ''get'', st))"
  by (simp add: mem_update_def declared_def handle_call_def forwarded_def features_def)

text \<open>
  C4. \<^verbatim>\<open>delete\<close> calls the same undeclared identifier: on every table and filter it raises
  a \<^verbatim>\<open>ReferenceError\<close> and removes nothing.
\<close>

theorem delete_throws_reference_error:
  "mem_delete h table key st = Inl (ReferenceError ''get'', st) \<and>
   handle_call h (Handle Db None) ''delete'' [AString table, AFilter key] st =
     Some (Inl (ReferenceError ''get'', st))"
  by (simp add: mem_delete_def declared_def handle_call_def forwarded_def features_def)

text \<open>
  C2. On the sample table, \<^verbatim>\<open>r = get("users", {name: "a"})\<close> holds the first record. The
  first \<^verbatim>\<open>r.delete()\<close> removes it and leaves the second and third records. A second
  \<^verbatim>\<open>r.delete()\<close> finds the record gone, \<^verbatim>\<open>indexOf\<close> gives \<open>-1\<close>, and \<^verbatim>\<open>splice(-1, 1)\<close> removes
  the last row: the third record, which was never in \<^verbatim>\<open>r\<close>.
\<close>

theorem result_delete_stale_reference:
  "rows_after ''users''
     (and_then (mem_get sample_host ''users'' (Single (Obj [(''name'', SStr_a)])) sample_store)
        (\<lambda>r s1. result_delete sample_host r s1)) = Inr (Some [1, 2]) \<and>
   rows_after ''users''
     (and_then (mem_get sample_host ''users'' (Single (Obj [(''name'', SStr_a)])) sample_store)
        (\<lambda>r s1. and_then (result_delete sample_host r s1)
           (\<lambda>u s2. result_delete sample_host r s2))) = Inr (Some [1])"
  by (simp add: eval_get eval_sample eval_host and_then_def rows_after_def rows_def
        result_delete_def forEach_def deleteItem_def indexOf_def splice1_def)

end
